theory Spec2Isabelle
  imports Complex_Main
begin

chapter \<open>Polynomial regression: model matrix, scaler, solvers and dispatcher\<close>

text \<open>
  A shallow embedding of \<^verbatim>\<open>src/regressors.py\<close>. The arrays of the program hold
  floating-point numbers; here numbers are the elements of an arbitrary type \<open>'a\<close> that
  carries the arithmetic operations the code uses. The definitions ask for the operations
  only, and the theorems that need laws of arithmetic (associativity, cancellation) ask
  for a semiring or a field, so they speak of exact numbers such as the rationals. A
  one-dimensional numpy array is a list, Python exceptions are values of \<open>error\<close>, and
  every raise of the source is an \<open>Inl\<close> branch of the model.
\<close>

section \<open>Values, errors and arrays\<close>

text \<open>The two assertions of \<^verbatim>\<open>get_model_matrix\<close>, told apart by their place.\<close>

datatype assert_site = feature_dimensions | polynom_type

datatype error =
    IndexError
  | AssertionError assert_site
  | ValueError
  | KeyError string
  | LinAlgError
  | ZeroDivisionError
  | NotImplementedError

text \<open>
  The argument \<^verbatim>\<open>n_pol\<close> is an arbitrary Python value; \<^verbatim>\<open>type(n_pol) == int\<close>
  holds for \<open>PyInt\<close> only (a \<^verbatim>\<open>bool\<close> has type \<^verbatim>\<open>bool\<close>).
\<close>

datatype py_value = PyInt int | PyFloat rat | PyBool bool | PyStr string | PyNone

text \<open>
  The arrays \<^verbatim>\<open>np.array(columns).T\<close> can be: the empty one-dimensional array of shape
  \<open>(0,)\<close> when there is no column, and otherwise a two-dimensional array, kept as its
  number of columns and the list of its rows (the number of columns is part of the shape
  also when there is no row).
\<close>

datatype 'a ndarray = EmptyArray | Matrix nat "'a list list"

text \<open>The result of \<^verbatim>\<open>matrix @ beta + intercept\<close>: a number or a vector.\<close>

datatype 'a prediction = Scalar 'a | Vector "'a list"

section \<open>numpy and itertools\<close>

text \<open>
  Broadcasting of a binary operation over two one-dimensional arrays: elementwise for
  equal lengths, a one-element array is stretched, anything else is a \<^verbatim>\<open>ValueError\<close>.
\<close>

definition broadcast1 :: "('a \<Rightarrow> 'a \<Rightarrow> 'a) \<Rightarrow> 'a list \<Rightarrow> 'a list \<Rightarrow> error + 'a list" where
  "broadcast1 f xs ys =
     (if length xs = length ys then Inr (map2 f xs ys)
      else if length xs = 1 then Inr (map (f (xs ! 0)) ys)
      else if length ys = 1 then Inr (map (\<lambda>x. f x (ys ! 0)) xs)
      else Inl ValueError)"

definition np_ones :: "nat \<Rightarrow> 'a::one list" where
  "np_ones n = replicate n 1"

text \<open>
  \<^verbatim>\<open>np.array(columns).T\<close> for a list of columns, each a one-dimensional array or
  \<^verbatim>\<open>None\<close>. Columns of one length \<open>n\<close> give the matrix with \<open>n\<close> rows whose row \<open>i\<close>
  holds entry \<open>i\<close> of every column. Columns of different lengths (or a \<^verbatim>\<open>None\<close> among
  arrays) are refused with \<^verbatim>\<open>ValueError\<close>, as numpy 1.24 and later do; older versions
  build an array of objects there.
\<close>

definition np_array_T :: "'a list option list \<Rightarrow> error + 'a ndarray" where
  "np_array_T columns =
     (case those columns of
        None \<Rightarrow> Inl ValueError
      | Some [] \<Rightarrow> Inr EmptyArray
      | Some (c # cs) \<Rightarrow>
          if list_all (\<lambda>d. length d = length c) cs
          then Inr (Matrix (Suc (length cs)) (map (\<lambda>i. map (\<lambda>d. d ! i) (c # cs)) [0..<length c]))
          else Inl ValueError)"

text \<open>
  \<^verbatim>\<open>itertools.combinations_with_replacement(pool, r)\<close>. The library documents it twice.
  Once as a filter: the tuples of \<^verbatim>\<open>product(range(n), repeat=r)\<close>, which come in
  lexicographic order, restricted to those that are sorted, each mapped to the pool. This
  is the form \<open>get_model_matrix\<close> is given here.
\<close>

definition index_tuples :: "nat \<Rightarrow> nat \<Rightarrow> nat list list" where
  "index_tuples n r = filter sorted (product_lists (replicate r [0..<n]))"

definition combinations_with_replacement :: "'b list \<Rightarrow> nat \<Rightarrow> 'b list list" where
  "combinations_with_replacement pool r = map (map (nth pool)) (index_tuples (length pool) r)"

text \<open>
  And once as a generator, which keeps a list of \<open>r\<close> indices, starts from zeros, and in
  every turn looks from the right for an index that is not \<open>n - 1\<close>
  (\<^verbatim>\<open>for i in reversed(range(r)): if indices[i] != n - 1: break\<close>), stops if there is
  none, and otherwise sets that index and all to its right to its successor
  (\<^verbatim>\<open>indices[i:] = [indices[i] + 1] * (r - i)\<close>). The loop has no bound of its own, so
  it is a partial function; \<open>generated_combinations_eq\<close> below shows that it returns, and
  returns the list of the first form. For an empty pool and \<open>r > 0\<close> the generator returns
  at once, so \<open>n - 1\<close> is never formed for \<open>n = 0\<close>.
\<close>

fun pivot :: "nat \<Rightarrow> nat list \<Rightarrow> nat \<Rightarrow> nat option" where
  "pivot n indices 0 = None"
| "pivot n indices (Suc i) = (if indices ! i \<noteq> n - 1 then Some i else pivot n indices i)"

definition advance :: "nat \<Rightarrow> nat \<Rightarrow> nat list \<Rightarrow> nat list option" where
  "advance n r indices =
     (case pivot n indices r of
        None \<Rightarrow> None
      | Some i \<Rightarrow> Some (take i indices @ replicate (r - i) (indices ! i + 1)))"

partial_function (option) generate :: "nat \<Rightarrow> nat \<Rightarrow> nat list \<Rightarrow> nat list list \<Rightarrow> nat list list option" where
  "generate n r indices emitted =
     (case advance n r indices of
        None \<Rightarrow> Some emitted
      | Some indices' \<Rightarrow> generate n r indices' (emitted @ [indices']))"

definition generated_combinations :: "'b list \<Rightarrow> nat \<Rightarrow> 'b list list option" where
  "generated_combinations pool r =
     (if length pool = 0 \<and> r \<noteq> 0 then Some []
      else map_option (map (map (nth pool)))
             (generate (length pool) r (replicate r 0) [replicate r 0]))"

text \<open>
  The sorted tuples of length \<open>r\<close> over the indices from \<open>lo\<close> below \<open>n\<close>, by recursion on
  the first entry: a third description, which the proofs go through.
\<close>

fun sorted_tuples_from :: "nat \<Rightarrow> nat \<Rightarrow> nat \<Rightarrow> nat list list" where
  "sorted_tuples_from n lo 0 = [[]]"
| "sorted_tuples_from n lo (Suc r) =
     concat (map (\<lambda>x. map (Cons x) (sorted_tuples_from n x r)) [lo..<n])"

section \<open>The model matrix\<close>

text \<open>
  Lines 44-45: \<^verbatim>\<open>for i in range(len(data_points)): assert len(data_points[0]) == len(data_points[1])\<close>.
  Every turn of the loop evaluates the same comparison, of the first two sequences; the
  loop variable is not used. With one sequence \<^verbatim>\<open>data_points[1]\<close> is out of range.
\<close>

definition assert_features :: "'a list list \<Rightarrow> error + unit" where
  "assert_features data_points =
     (if length data_points < 1 then Inl IndexError
      else if length data_points < 2 then Inl IndexError
      else if length (data_points ! 0) = length (data_points ! 1) then Inr ()
      else Inl (AssertionError feature_dimensions))"

fun check_features :: "'a list list \<Rightarrow> nat list \<Rightarrow> error + unit" where
  "check_features data_points [] = Inr ()"
| "check_features data_points (i # is) =
     (case assert_features data_points of
        Inl e \<Rightarrow> Inl e
      | Inr _ \<Rightarrow> check_features data_points is)"

text \<open>Lines 50-52: the list of columns starts empty or with the column of ones.\<close>

definition intercept_columns :: "'a::one list list \<Rightarrow> bool \<Rightarrow> error + 'a list option list" where
  "intercept_columns data_points include_intercept =
     (if include_intercept then
        (case data_points of
           [] \<Rightarrow> Inl IndexError
         | x # _ \<Rightarrow> Inr [Some (np_ones (length x))])
      else Inr [])"

text \<open>
  Lines 58-60: for \<open>i\<close> from 1 to \<open>n_pol\<close> the combinations of \<open>i\<close> indices are appended;
  \<^verbatim>\<open>range(1, n_pol + 1)\<close> is empty for \<open>n_pol < 1\<close>.
\<close>

definition index_combinations :: "nat \<Rightarrow> int \<Rightarrow> nat list list" where
  "index_combinations n_features n_pol =
     foldl (\<lambda>acc i. acc @ combinations_with_replacement [0..<n_features] (nat i)) [] [1..n_pol]"

text \<open>
  Lines 66-74: the inner loop. \<^verbatim>\<open>product\<close> starts as \<^verbatim>\<open>None\<close>, takes the first
  chosen sequence, and is multiplied elementwise (with numpy's broadcasting) by each
  further one.
\<close>

fun column_product :: "'a::times list list \<Rightarrow> 'a list option \<Rightarrow> nat list \<Rightarrow> error + 'a list option" where
  "column_product data_points product [] = Inr product"
| "column_product data_points product (j # js) =
     (case product of
        None \<Rightarrow> column_product data_points (Some (data_points ! j)) js
      | Some p \<Rightarrow>
          (case broadcast1 (*) p (data_points ! j) of
             Inl e \<Rightarrow> Inl e
           | Inr q \<Rightarrow> column_product data_points (Some q) js))"

text \<open>Lines 63-77: the outer loop appends one column per combination.\<close>

fun append_columns :: "'a::times list list \<Rightarrow> 'a list option list \<Rightarrow> nat list list \<Rightarrow> error + 'a list option list" where
  "append_columns data_points columns [] = Inr columns"
| "append_columns data_points columns (c # cs) =
     (case column_product data_points None c of
        Inl e \<Rightarrow> Inl e
      | Inr product \<Rightarrow> append_columns data_points (columns @ [product]) cs)"

definition get_model_matrix :: "'a::{one,times} list list \<Rightarrow> py_value \<Rightarrow> bool \<Rightarrow> error + 'a ndarray" where
  "get_model_matrix data_points n_pol include_intercept =
     (case check_features data_points [0..<length data_points] of
        Inl e \<Rightarrow> Inl e
      | Inr _ \<Rightarrow>
          (case n_pol of
             PyInt n \<Rightarrow>
               (case intercept_columns data_points include_intercept of
                  Inl e \<Rightarrow> Inl e
                | Inr columns \<Rightarrow>
                    (case append_columns data_points columns
                            (index_combinations (length data_points) n) of
                       Inl e \<Rightarrow> Inl e
                     | Inr model_matrix_columns \<Rightarrow> np_array_T model_matrix_columns))
           | _ \<Rightarrow> Inl (AssertionError polynom_type)))"

section \<open>Reductions and products of numpy\<close>

text \<open>
  Sums run from the left; over exact numbers the order does not matter. The number of
  rows enters \<^verbatim>\<open>np.mean\<close> as a number of the element type.
\<close>

definition np_sum :: "'a::{zero,plus} list \<Rightarrow> 'a" where
  "np_sum xs = foldl (+) 0 xs"

fun np_float :: "nat \<Rightarrow> 'a::{zero,one,plus}" where
  "np_float 0 = 0"
| "np_float (Suc n) = np_float n + 1"

definition np_mean :: "'a::{zero,one,plus,inverse} list \<Rightarrow> 'a" where
  "np_mean xs = np_sum xs / np_float (length xs)"

definition column :: "'a list list \<Rightarrow> nat \<Rightarrow> 'a list" where
  "column rows j = map (\<lambda>r. r ! j) rows"

text \<open>
  \<^verbatim>\<open>np.mean(matrix, axis=0)\<close>, \<^verbatim>\<open>np.max(matrix, axis=0)\<close> and \<^verbatim>\<open>np.min(matrix, axis=0)\<close>
  of a matrix with \<open>k\<close> columns. The mean of no rows is a vector of nan with a warning
  and raises nothing (here \<open>0 / 0\<close>); the maximum and the minimum of no rows raise
  \<^verbatim>\<open>ValueError\<close> when there is a column to fill.
\<close>

definition np_mean_axis0 :: "nat \<Rightarrow> 'a::{zero,one,plus,inverse} list list \<Rightarrow> 'a list" where
  "np_mean_axis0 k rows = map (\<lambda>j. np_mean (column rows j)) [0..<k]"

definition reduce_axis0 :: "('a \<Rightarrow> 'a \<Rightarrow> 'a) \<Rightarrow> nat \<Rightarrow> 'a list list \<Rightarrow> error + 'a list" where
  "reduce_axis0 f k rows =
     (case rows of
        [] \<Rightarrow> if k = 0 then Inr [] else Inl ValueError
      | r # rs \<Rightarrow> Inr (map (\<lambda>j. foldl f (r ! j) (column rs j)) [0..<k]))"

definition np_max_axis0 :: "nat \<Rightarrow> 'a::ord list list \<Rightarrow> error + 'a list" where
  "np_max_axis0 = reduce_axis0 max"

definition np_min_axis0 :: "nat \<Rightarrow> 'a::ord list list \<Rightarrow> error + 'a list" where
  "np_min_axis0 = reduce_axis0 min"

text \<open>
  A matrix combined with a one-dimensional array, as in \<^verbatim>\<open>test_model_matrix - train_mean\<close>:
  the vector is laid along every row, and numpy stretches a single column or a
  one-element vector. The empty one-dimensional array combines with a vector of at most
  one element.
\<close>

definition broadcast_rows :: "('a \<Rightarrow> 'a \<Rightarrow> 'a) \<Rightarrow> 'a ndarray \<Rightarrow> 'a list \<Rightarrow> error + 'a ndarray" where
  "broadcast_rows f a v =
     (case a of
        EmptyArray \<Rightarrow> if length v \<le> 1 then Inr EmptyArray else Inl ValueError
      | Matrix k rows \<Rightarrow>
          if k = length v then Inr (Matrix k (map (\<lambda>r. map2 f r v) rows))
          else if length v = 1 then Inr (Matrix k (map (map (\<lambda>x. f x (v ! 0))) rows))
          else if k = 1 then Inr (Matrix (length v) (map (\<lambda>r. map (f (r ! 0)) v) rows))
          else Inl ValueError)"

definition dot :: "'a::{zero,plus,times} list \<Rightarrow> 'a list \<Rightarrow> 'a" where
  "dot xs ys = np_sum (map2 (*) xs ys)"

text \<open>\<^verbatim>\<open>a @ v\<close> for a one-dimensional \<open>v\<close>.\<close>

definition matmul_vector :: "'a::{zero,plus,times} ndarray \<Rightarrow> 'a list \<Rightarrow> error + 'a prediction" where
  "matmul_vector a v =
     (case a of
        EmptyArray \<Rightarrow> if v = [] then Inr (Scalar 0) else Inl ValueError
      | Matrix k rows \<Rightarrow>
          if k = length v then Inr (Vector (map (\<lambda>r. dot r v) rows)) else Inl ValueError)"

text \<open>\<^verbatim>\<open>a.T\<close>, \<^verbatim>\<open>a @ b\<close>, \<^verbatim>\<open>a + b\<close>, \<^verbatim>\<open>alpha * a\<close> and \<^verbatim>\<open>np.eye(k)\<close> for matrices.\<close>

definition transpose_rows :: "nat \<Rightarrow> 'a list list \<Rightarrow> 'a list list" where
  "transpose_rows k rows = map (column rows) [0..<k]"

definition matmul_rows :: "nat \<Rightarrow> 'a::{zero,plus,times} list list \<Rightarrow> 'a list list \<Rightarrow> 'a list list" where
  "matmul_rows k2 rows1 rows2 = map (\<lambda>r. map (\<lambda>j. dot r (column rows2 j)) [0..<k2]) rows1"

definition np_eye :: "nat \<Rightarrow> 'a::{zero,one} list list" where
  "np_eye k = map (\<lambda>i. map (\<lambda>j. if i = j then 1 else 0) [0..<k]) [0..<k]"

section \<open>The closed-form solvers\<close>

text \<open>
  What the module takes from outside: the pseudo-inverse of numpy, the minimizer of scipy,
  the normal random vectors of numpy, which read and advance a global random state \<open>'g\<close>,
  and the gradient-descent engine of the module \<^verbatim>\<open>sgd\<close>, which draws its batches from
  the same state. The engine is handed its cost derivative as a function object; the three
  that the module \<^verbatim>\<open>tools\<close> exports are told apart by name.
\<close>

datatype cost_derivative =
    calculate_cost_derivative_logistic
  | calculate_cost_derivative_mse
  | calculate_cost_derivative_ridge

record ('a, 'g) externals =
  pinv :: "nat \<Rightarrow> 'a list list \<Rightarrow> error + nat \<times> 'a list list"
  minimize :: "('a list \<Rightarrow> error + 'a) \<Rightarrow> 'a list \<Rightarrow> error + 'a list"
  random_normal :: "nat \<Rightarrow> 'g \<Rightarrow> 'a list \<times> 'g"
  stochastic_batch_gradient_descent ::
    "'a ndarray \<Rightarrow> 'a list \<Rightarrow> 'a list \<Rightarrow> cost_derivative \<Rightarrow>
     'a \<Rightarrow> int \<Rightarrow> 'a \<Rightarrow> int \<Rightarrow> 'a \<Rightarrow> 'g \<Rightarrow> error + 'a list \<times> 'g"

text \<open>
  Line 10: \<^verbatim>\<open>np.linalg.pinv(model_matrix.T @ model_matrix) @ model_matrix.T @ targets\<close>;
  \<^verbatim>\<open>@\<close> associates to the left. The pseudo-inverse takes and returns a matrix as its
  number of columns and its rows. For the empty one-dimensional array the product
  \<^verbatim>\<open>model_matrix.T @ model_matrix\<close> is a number, which \<^verbatim>\<open>pinv\<close> refuses.
\<close>

definition solve_with :: "('a::{zero,plus,times}, 'g) externals \<Rightarrow> nat \<Rightarrow> 'a list list \<Rightarrow>
    nat \<Rightarrow> 'a list list \<Rightarrow> 'a list \<Rightarrow> error + 'a list" where
  "solve_with ext k gram n transposed targets =
     (case pinv ext k gram of
        Inl e \<Rightarrow> Inl e
      | Inr (kp, p) \<Rightarrow>
          if kp \<noteq> length transposed then Inl ValueError
          else if n \<noteq> length targets then Inl ValueError
          else Inr (map (\<lambda>r. dot r targets) (matmul_rows n p transposed)))"

definition calculate_beta :: "('a::{zero,plus,times}, 'g) externals \<Rightarrow> 'a ndarray \<Rightarrow> 'a list \<Rightarrow> error + 'a list" where
  "calculate_beta ext model_matrix targets =
     (case model_matrix of
        EmptyArray \<Rightarrow> Inl LinAlgError
      | Matrix k rows \<Rightarrow>
          let transposed = transpose_rows k rows;
              gram = matmul_rows k transposed rows
          in solve_with ext k gram (length rows) transposed targets)"

text \<open>
  Line 20: the same with \<^verbatim>\<open>alpha * np.eye(model_matrix.shape[1])\<close> added to the product
  before the pseudo-inverse. A one-dimensional array has no \<^verbatim>\<open>shape[1]\<close>.
\<close>

definition calculate_beta_ridge :: "('a::{zero,one,plus,times}, 'g) externals \<Rightarrow> 'a ndarray \<Rightarrow> 'a list \<Rightarrow> 'a \<Rightarrow> error + 'a list" where
  "calculate_beta_ridge ext model_matrix targets al =
     (case model_matrix of
        EmptyArray \<Rightarrow> Inl IndexError
      | Matrix k rows \<Rightarrow>
          let transposed = transpose_rows k rows;
              gram = matmul_rows k transposed rows;
              penalty = map (map (\<lambda>x. al * x)) (np_eye k);
              regularized = map2 (map2 (+)) gram penalty
          in solve_with ext k regularized (length rows) transposed targets)"

text \<open>
  Lines 12-17: the lasso objective
  \<^verbatim>\<open>(1/(2 * n)) * np.sum((targets - X @ beta)**2) + alpha * np.sum(np.abs(beta))\<close>
  and its minimization from the vector of ones. The factor \<^verbatim>\<open>1/(2 * n)\<close> is a
  division of Python integers, which raises for \<open>n = 0\<close>.
\<close>

definition lasso_error :: "'a::{zero,one,plus,minus,times,inverse,abs} \<Rightarrow> 'a ndarray \<Rightarrow> 'a list \<Rightarrow> 'a list \<Rightarrow> error + 'a" where
  "lasso_error al model_matrix ys beta =
     (if length ys = 0 then Inl ZeroDivisionError
      else
        (case matmul_vector model_matrix beta of
           Inl e \<Rightarrow> Inl e
         | Inr (Scalar s) \<Rightarrow>
             Inr ((1 / np_float (2 * length ys)) * np_sum (map (\<lambda>y. (y - s) * (y - s)) ys)
                  + al * np_sum (map abs beta))
         | Inr (Vector p) \<Rightarrow>
             (case broadcast1 (-) ys p of
                Inl e \<Rightarrow> Inl e
              | Inr residual \<Rightarrow>
                  Inr ((1 / np_float (2 * length ys)) * np_sum (map (\<lambda>d. d * d) residual)
                       + al * np_sum (map abs beta)))))"

definition calculate_beta_lasso :: "('a::{zero,one,plus,minus,times,inverse,abs}, 'g) externals \<Rightarrow> 'a ndarray \<Rightarrow> 'a list \<Rightarrow> 'a \<Rightarrow> error + 'a list" where
  "calculate_beta_lasso ext model_matrix targets al =
     (case model_matrix of
        EmptyArray \<Rightarrow> Inl IndexError
      | Matrix k rows \<Rightarrow> minimize ext (lasso_error al model_matrix targets) (np_ones k))"

text \<open>Line 23: \<^verbatim>\<open>model_matrix @ beta + intercept\<close>.\<close>

definition get_prediction :: "'a::{zero,plus,times} ndarray \<Rightarrow> 'a list \<Rightarrow> 'a \<Rightarrow> error + 'a prediction" where
  "get_prediction model_matrix beta intercept =
     (case matmul_vector model_matrix beta of
        Inl e \<Rightarrow> Inl e
      | Inr (Scalar s) \<Rightarrow> Inr (Scalar (s + intercept))
      | Inr (Vector p) \<Rightarrow> Inr (Vector (map (\<lambda>x. x + intercept) p)))"

section \<open>The scaler\<close>

text \<open>
  \<^verbatim>\<open>center\<close> assigns to the rows of its argument, so the arrays live in a store: an
  address is a position in the list of arrays, and a variable of the program holds an
  address. A new array goes to the end of the store.
\<close>

type_synonym 'a store = "'a ndarray list"

definition new_array :: "'a store \<Rightarrow> 'a ndarray \<Rightarrow> nat \<times> 'a store" where
  "new_array s a = (length s, s @ [a])"

text \<open>\<^verbatim>\<open>matrix[i] = v\<close> on the array at an address.\<close>

definition assign_row :: "'a store \<Rightarrow> nat \<Rightarrow> nat \<Rightarrow> 'a list \<Rightarrow> 'a store" where
  "assign_row s matrix i v =
     (case s ! matrix of
        EmptyArray \<Rightarrow> s
      | Matrix k rows \<Rightarrow> s[matrix := Matrix k (rows[i := v])])"

definition read_row :: "'a store \<Rightarrow> nat \<Rightarrow> nat \<Rightarrow> 'a list" where
  "read_row s matrix i = (case s ! matrix of EmptyArray \<Rightarrow> [] | Matrix k rows \<Rightarrow> rows ! i)"

text \<open>
  Lines 25-33. The mean and the divisor are computed from the array as it is passed; the
  loop then overwrites row after row of the same array, and the address that is returned
  is the address that was passed. A zero in the divisor gives non-finite entries in numpy
  and raises nothing; the division is left as the division of \<open>'a\<close>.
\<close>

definition center_row :: "'a::{minus,inverse} list \<Rightarrow> 'a list \<Rightarrow> 'a list \<Rightarrow> 'a list" where
  "center_row m_mean divisor row = map2 (/) (map2 (-) row m_mean) divisor"

definition center :: "'a::{zero,one,plus,minus,inverse,ord} store \<Rightarrow> nat \<Rightarrow>
    error + (nat \<times> 'a list \<times> 'a list) \<times> 'a store" where
  "center s matrix =
     (case s ! matrix of
        EmptyArray \<Rightarrow> Inl ValueError
      | Matrix k rows \<Rightarrow>
          let m_mean = np_mean_axis0 k rows in
          (case np_max_axis0 k rows of
             Inl e \<Rightarrow> Inl e
           | Inr highest \<Rightarrow>
               (case np_min_axis0 k rows of
                  Inl e \<Rightarrow> Inl e
                | Inr lowest \<Rightarrow>
                    let divisor = map2 (-) highest lowest;
                        s' = foldl (\<lambda>t i. assign_row t matrix i (center_row m_mean divisor (read_row t matrix i)))
                               s [0..<length rows]
                    in Inr ((matrix, m_mean, divisor), s'))))"

section \<open>The dispatcher\<close>

text \<open>
  Modelled from the spec: the enumeration \<^verbatim>\<open>RegressorType\<close> of the module
  \<^verbatim>\<open>enums.regressor_type\<close>, whose six members the spec lists (OLS, OLS via gradient
  descent, LASSO, RIDGE, RIDGE via gradient descent, LOGISTIC) under the names
  \<^verbatim>\<open>get_beta\<close> compares with. \<open>Unrecognized\<close> stands for every other value that
  can be passed as \<^verbatim>\<open>type\<close>; it is equal to none of the six.
\<close>

datatype RegressorType = OLS | OLS_SGD | LASSO | RIDGE | RIDGE_SGD | LOGISTIC | Unrecognized string

text \<open>
  The dictionary \<^verbatim>\<open>regressor_parameters\<close> with its recognized keys; a key that is
  absent is \<open>None\<close>, and reading it raises \<^verbatim>\<open>KeyError\<close>.
\<close>

record 'a regressor_parameters =
  fit_intercept :: "bool option"
  learning_rate :: "'a option"
  max_iterations :: "int option"
  momentum :: "'a option"
  batch_size :: "int option"
  alpha :: "'a option"

definition lookup :: "string \<Rightarrow> 'v option \<Rightarrow> error + 'v" where
  "lookup key entry = (case entry of None \<Rightarrow> Inl (KeyError key) | Some v \<Rightarrow> Inr v)"

text \<open>\<^verbatim>\<open>np.random.normal(size = model_matrix.shape[1])\<close>.\<close>

definition initial_beta :: "('a, 'g) externals \<Rightarrow> 'a ndarray \<Rightarrow> 'g \<Rightarrow> error + 'a list \<times> 'g" where
  "initial_beta ext model_matrix g =
     (case model_matrix of
        EmptyArray \<Rightarrow> Inl IndexError
      | Matrix k rows \<Rightarrow> Inr (random_normal ext k g))"

text \<open>
  The call of the engine shared by lines 97-104, 111-118 and 120-127: the start vector is
  drawn, the keyword arguments are read from the dictionary in the order they are written,
  and the engine runs with the cost derivative it is handed. \<open>al\<close> is the argument
  \<^verbatim>\<open>alpha\<close>: the constant 0 or the entry of the dictionary, read last.
\<close>

definition run_gradient_descent :: "('a, 'g) externals \<Rightarrow> 'a ndarray \<Rightarrow> 'a list \<Rightarrow> cost_derivative \<Rightarrow>
    'a regressor_parameters \<Rightarrow> error + 'a \<Rightarrow> 'g \<Rightarrow> error + 'a list \<times> 'g" where
  "run_gradient_descent ext model_matrix targets derivative regressor_parameters al g =
     (case initial_beta ext model_matrix g of
        Inl e \<Rightarrow> Inl e
      | Inr (beta, g1) \<Rightarrow>
     (case lookup ''learning_rate'' (learning_rate regressor_parameters) of
        Inl e \<Rightarrow> Inl e
      | Inr rate \<Rightarrow>
     (case lookup ''max_iterations'' (max_iterations regressor_parameters) of
        Inl e \<Rightarrow> Inl e
      | Inr iterations \<Rightarrow>
     (case lookup ''momentum'' (momentum regressor_parameters) of
        Inl e \<Rightarrow> Inl e
      | Inr mom \<Rightarrow>
     (case lookup ''batch_size'' (batch_size regressor_parameters) of
        Inl e \<Rightarrow> Inl e
      | Inr batch \<Rightarrow>
     (case al of
        Inl e \<Rightarrow> Inl e
      | Inr a \<Rightarrow>
          stochastic_batch_gradient_descent ext model_matrix targets beta derivative
            rate iterations mom batch a g1))))))"

text \<open>Lines 93-129. The closed-form kinds leave the random state as it is.\<close>

definition get_beta :: "('a::{zero,one,plus,minus,times,inverse,abs}, 'g) externals \<Rightarrow> RegressorType \<Rightarrow>
    'a ndarray \<Rightarrow> 'a list \<Rightarrow> 'a regressor_parameters \<Rightarrow> 'g \<Rightarrow> error + 'a list \<times> 'g" where
  "get_beta ext type model_matrix targets regressor_parameters g =
     (if type = OLS then
        map_sum id (\<lambda>beta. (beta, g)) (calculate_beta ext model_matrix targets)
      else if type = OLS_SGD then
        run_gradient_descent ext model_matrix targets calculate_cost_derivative_mse
          regressor_parameters (Inr 0) g
      else if type = LASSO then
        (case lookup ''alpha'' (alpha regressor_parameters) of
           Inl e \<Rightarrow> Inl e
         | Inr a \<Rightarrow> map_sum id (\<lambda>beta. (beta, g)) (calculate_beta_lasso ext model_matrix targets a))
      else if type = RIDGE then
        (case lookup ''alpha'' (alpha regressor_parameters) of
           Inl e \<Rightarrow> Inl e
         | Inr a \<Rightarrow> map_sum id (\<lambda>beta. (beta, g)) (calculate_beta_ridge ext model_matrix targets a))
      else if type = RIDGE_SGD then
        run_gradient_descent ext model_matrix targets calculate_cost_derivative_ridge
          regressor_parameters (lookup ''alpha'' (alpha regressor_parameters)) g
      else if type = LOGISTIC then
        run_gradient_descent ext model_matrix targets calculate_cost_derivative_mse
          regressor_parameters (lookup ''alpha'' (alpha regressor_parameters)) g
      else Inl NotImplementedError)"

text \<open>The dictionaries \<^verbatim>\<open>train_data\<close> and \<^verbatim>\<open>test_data\<close>, with both their keys present.\<close>

record 'a dataset =
  inputs :: "'a list list"
  targets :: "'a list"

text \<open>
  Lines 141-157, the branch that fits the intercept. The train matrix is a new array at
  the address \<open>train_model_matrix\<close>; \<^verbatim>\<open>center\<close> returns an address, under which the
  array is read for the fit and for the train prediction. The test matrix is never handed
  to \<^verbatim>\<open>center\<close>: it is transformed with \<open>train_mean\<close> and \<open>divisor_scaler\<close>.
\<close>

definition regressor_centered :: "('a::{zero,one,plus,minus,times,inverse,abs,ord}, 'g) externals \<Rightarrow> RegressorType \<Rightarrow>
    'a regressor_parameters \<Rightarrow> 'a dataset \<Rightarrow> 'a dataset \<Rightarrow> py_value \<Rightarrow> 'g \<Rightarrow>
    error + ('a prediction \<times> 'a prediction) \<times> 'g" where
  "regressor_centered ext type regressor_parameters train_data test_data n_pol g =
     (case get_model_matrix (inputs train_data) n_pol False of
        Inl e \<Rightarrow> Inl e
      | Inr created \<Rightarrow>
     (case new_array [] created of (train_model_matrix, s0) \<Rightarrow>
     (case center s0 train_model_matrix of
        Inl e \<Rightarrow> Inl e
      | Inr ((centered_train_model_matrix, train_mean, divisor_scaler), s1) \<Rightarrow>
     (case get_beta ext type (s1 ! centered_train_model_matrix) (targets train_data)
             regressor_parameters g of
        Inl e \<Rightarrow> Inl e
      | Inr (beta, g1) \<Rightarrow>
     (case get_prediction (s1 ! centered_train_model_matrix) beta (np_mean (targets train_data)) of
        Inl e \<Rightarrow> Inl e
      | Inr train_prediction \<Rightarrow>
     (case get_model_matrix (inputs test_data) n_pol False of
        Inl e \<Rightarrow> Inl e
      | Inr test_model_matrix \<Rightarrow>
     (case broadcast_rows (-) test_model_matrix train_mean of
        Inl e \<Rightarrow> Inl e
      | Inr shifted \<Rightarrow>
     (case broadcast_rows (/) shifted divisor_scaler of
        Inl e \<Rightarrow> Inl e
      | Inr centered_test_model_matrix \<Rightarrow>
     (case get_prediction centered_test_model_matrix beta (np_mean (targets train_data)) of
        Inl e \<Rightarrow> Inl e
      | Inr test_prediction \<Rightarrow> Inr ((train_prediction, test_prediction), g1))))))))))"

text \<open>Lines 159-171, the branch with the column of ones in the matrices.\<close>

definition regressor_plain :: "('a::{zero,one,plus,minus,times,inverse,abs}, 'g) externals \<Rightarrow> RegressorType \<Rightarrow>
    'a regressor_parameters \<Rightarrow> 'a dataset \<Rightarrow> 'a dataset \<Rightarrow> py_value \<Rightarrow> 'g \<Rightarrow>
    error + ('a prediction \<times> 'a prediction) \<times> 'g" where
  "regressor_plain ext type regressor_parameters train_data test_data n_pol g =
     (case get_model_matrix (inputs train_data) n_pol True of
        Inl e \<Rightarrow> Inl e
      | Inr train_model_matrix \<Rightarrow>
     (case get_beta ext type train_model_matrix (targets train_data) regressor_parameters g of
        Inl e \<Rightarrow> Inl e
      | Inr (beta, g1) \<Rightarrow>
     (case get_prediction train_model_matrix beta 0 of
        Inl e \<Rightarrow> Inl e
      | Inr train_prediction \<Rightarrow>
     (case get_model_matrix (inputs test_data) n_pol True of
        Inl e \<Rightarrow> Inl e
      | Inr test_model_matrix \<Rightarrow>
     (case get_prediction test_model_matrix beta 0 of
        Inl e \<Rightarrow> Inl e
      | Inr test_prediction \<Rightarrow> Inr ((train_prediction, test_prediction), g1))))))"

text \<open>Lines 131-173.\<close>

definition regressor :: "('a::{zero,one,plus,minus,times,inverse,abs,ord}, 'g) externals \<Rightarrow> RegressorType \<Rightarrow>
    'a regressor_parameters \<Rightarrow> 'a dataset \<Rightarrow> 'a dataset \<Rightarrow> py_value \<Rightarrow> 'g \<Rightarrow>
    error + ('a prediction \<times> 'a prediction) \<times> 'g" where
  "regressor ext type regressor_parameters train_data test_data n_pol g =
     (case lookup ''fit_intercept'' (fit_intercept regressor_parameters) of
        Inl e \<Rightarrow> Inl e
      | Inr fit \<Rightarrow>
          if fit then regressor_centered ext type regressor_parameters train_data test_data n_pol g
          else regressor_plain ext type regressor_parameters train_data test_data n_pol g)"

section \<open>The specification's view of the model matrix\<close>

text \<open>
  What the specification says about the matrix, in its own words, to be compared with
  \<open>get_model_matrix\<close>: the columns of an array, read from the left; the column that
  belongs to a combination \<open>c\<close> of indices, whose entry for observation \<open>i\<close> is the
  product of the entries of the chosen sequences; and the list of all columns, the column
  of ones first if it is asked for, then degree by degree, in each degree one column per
  sorted tuple of indices in lexicographic order.
\<close>

definition columns_of :: "'a ndarray \<Rightarrow> 'a list list" where
  "columns_of a = (case a of EmptyArray \<Rightarrow> [] | Matrix k rows \<Rightarrow> map (column rows) [0..<k])"

definition product_column :: "'a::monoid_mult list list \<Rightarrow> nat \<Rightarrow> nat list \<Rightarrow> 'a list" where
  "product_column data_points m c = map (\<lambda>i. prod_list (map (\<lambda>j. data_points ! j ! i) c)) [0..<m]"

definition model_columns :: "'a::monoid_mult list list \<Rightarrow> nat \<Rightarrow> nat \<Rightarrow> bool \<Rightarrow> 'a list list" where
  "model_columns data_points m n_pol include_intercept =
     (if include_intercept then [replicate m 1] else []) @
     concat (map (\<lambda>d. map (product_column data_points m) (index_tuples (length data_points) d))
               [1..<Suc n_pol])"

text \<open>
  The same by rows. Observation \<open>i\<close> is the list of the entries \<open>i\<close> of the sequences; the
  entry of its row for a combination is the product the inner loop forms, from the left.
\<close>

definition observation :: "'a list list \<Rightarrow> nat \<Rightarrow> 'a list" where
  "observation data_points i = map (\<lambda>x. x ! i) data_points"

definition monomial :: "'a::times list \<Rightarrow> nat list \<Rightarrow> 'a" where
  "monomial x c = foldl (*) (x ! hd c) (map (nth x) (tl c))"


text \<open>
  The columns the loops of \<open>get_model_matrix\<close> build from sequences of one length \<open>m\<close>,
  in the order they are appended.
\<close>

definition built_columns :: "'a::{one,times} list list \<Rightarrow> nat \<Rightarrow> nat \<Rightarrow> bool \<Rightarrow> 'a list list" where
  "built_columns data_points m n_pol include_intercept =
     (if include_intercept then [replicate m 1] else []) @
     map (\<lambda>c. map (\<lambda>i. monomial (observation data_points i) c) [0..<m])
       (concat (map (index_tuples (length data_points)) [1..<Suc n_pol]))"

section \<open>The specification's view of the scaler\<close>



section \<open>The specification's view of the solvers\<close>

text \<open>
  The normal equations in the words of the specification: the matrix \<open>X\<^sup>t X\<close>, the vector
  \<open>X\<^sup>t y\<close>, the product of a matrix with a vector, and \<open>G + alpha I\<close> for the identity
  \<open>I\<close> with as many rows as \<open>X\<close> has columns.
\<close>

definition gram_matrix :: "nat \<Rightarrow> 'a::semiring_0 list list \<Rightarrow> 'a list list" where
  "gram_matrix k rows = map (\<lambda>i. map (\<lambda>j. \<Sum>r\<leftarrow>rows. r ! i * r ! j) [0..<k]) [0..<k]"

definition moment_vector :: "nat \<Rightarrow> 'a::semiring_0 list list \<Rightarrow> 'a list \<Rightarrow> 'a list" where
  "moment_vector k rows ys = map (\<lambda>j. \<Sum>(r, y)\<leftarrow>zip rows ys. r ! j * y) [0..<k]"

definition apply_matrix :: "'a::semiring_0 list list \<Rightarrow> 'a list \<Rightarrow> 'a list" where
  "apply_matrix p v = map (\<lambda>r. \<Sum>(a, b)\<leftarrow>zip r v. a * b) p"

definition add_ridge :: "'a::semiring_0 \<Rightarrow> nat \<Rightarrow> 'a list list \<Rightarrow> 'a list list" where
  "add_ridge al k g = map (\<lambda>i. map (\<lambda>j. g ! i ! j + (if i = j then al else 0)) [0..<k]) [0..<k]"

section \<open>Example collaborators and data\<close>

text \<open>
  Concrete collaborators over the rationals, for the instances below: the pseudo-inverse of
  a matrix with one entry, a minimizer that returns its start, a random source that counts
  its draws and returns zeros, and an engine that adds to the start vector a step that
  tells which cost derivative it was handed.
\<close>

definition example_externals :: "(rat, nat) externals" where
  "example_externals =
     \<lparr>pinv = (\<lambda>k rows. case rows of [[a]] \<Rightarrow> Inr (1, [[inverse a]]) | _ \<Rightarrow> Inl LinAlgError),
      minimize = (\<lambda>objective x0. Inr x0),
      random_normal = (\<lambda>k g. (replicate k 0, Suc g)),
      stochastic_batch_gradient_descent =
        (\<lambda>model_matrix ys beta derivative rate iterations mom batch a g.
           Inr (map (\<lambda>b. b + (case derivative of
                                 calculate_cost_derivative_logistic \<Rightarrow> 3
                               | calculate_cost_derivative_mse \<Rightarrow> 1
                               | calculate_cost_derivative_ridge \<Rightarrow> 2)) beta, Suc g))\<rparr>"

definition example_parameters :: "rat regressor_parameters" where
  "example_parameters =
     \<lparr>fit_intercept = Some True, learning_rate = Some (1 / 10), max_iterations = Some 100,
      momentum = Some 0, batch_size = Some 2, alpha = Some 0\<rparr>"

definition example_train :: "rat dataset" where
  "example_train = \<lparr>inputs = [[1, 2, 4], [3, 5, 4]], targets = [1, 2, 3]\<rparr>"

definition example_test :: "rat dataset" where
  "example_test = \<lparr>inputs = [[1, 2], [3, 4]], targets = [1, 2]\<rparr>"


section \<open>Properties\<close>

lemma check_features_closed:
  "check_features data_points is = (if is = [] then Inr () else assert_features data_points)"
  by (induction "is") (auto split: sum.splits)

subsection \<open>The index combinations\<close>

lemma foldl_append_concat: "foldl (\<lambda>acc i. acc @ f i) acc xs = acc @ concat (map f xs)"
  by (induction xs arbitrary: acc) simp_all

lemma upto_int_nat: "[1..int n] = map int [1..<Suc n]"
proof (induction n)
  case 0
  show ?case by simp
next
  case (Suc n)
  have "[1..int (Suc n)] = [1..int n] @ [int (Suc n)]"
    using upto_rec2 [of 1 "int (Suc n)"] by simp
  with Suc show ?case by simp
qed

lemma index_tuples_bound:
  "t \<in> set (index_tuples n r) \<Longrightarrow> list_all (\<lambda>j. j < n) t \<and> length t = r \<and> sorted t"
  by (auto simp: index_tuples_def product_lists_set list_all2_conv_all_nth list_all_length
      dest: in_set_product_lists_length)

lemma map_nth_upt_id: "list_all (\<lambda>j. j < n) t \<Longrightarrow> map (nth [0..<n]) t = t"
  by (induction t) simp_all

lemma combinations_of_indices: "combinations_with_replacement [0..<n] r = index_tuples n r"
  unfolding combinations_with_replacement_def length_upt diff_zero
  by (rule map_idI) (simp add: index_tuples_bound map_nth_upt_id)

lemma index_combinations_eq:
  "index_combinations k (int n) = concat (map (index_tuples k) [1..<Suc n])"
  unfolding index_combinations_def foldl_append_concat upto_int_nat
  by (simp add: comp_def combinations_of_indices del: upt_Suc)

lemma index_combinations_negative: "n < 1 \<Longrightarrow> index_combinations k n = []"
  by (simp add: index_combinations_def)

lemma index_combinations_ok:
  "list_all (\<lambda>c. c \<noteq> [] \<and> list_all (\<lambda>j. j < k) c) (index_combinations k (int n))"
proof -
  have "c \<noteq> [] \<and> list_all (\<lambda>j. j < k) c" if "c \<in> set (index_tuples k d)" "1 \<le> d" for c d
    using index_tuples_bound [OF that(1)] that(2) by auto
  then show ?thesis
    unfolding index_combinations_eq list_all_iff by auto
qed

subsection \<open>The combinations of itertools\<close>

text \<open>
  \<open>index_tuples n r\<close> holds every sorted tuple of \<open>r\<close> indices below \<open>n\<close>, each once, in
  lexicographic order; and the generator of the library returns, with the same list.
\<close>

lemma concat_map_if_upt:
  "concat (map (\<lambda>y. if x \<le> y then f y else []) [0..<n]) = concat (map f [x..<n])"
proof (induction n)
  case 0 show ?case by simp
next
  case (Suc n)
  show ?case
  proof (cases "x \<le> n")
    case True with Suc show ?thesis by simp
  next
    case False with Suc show ?thesis by simp
  qed
qed

lemma filter_sorted_from:
  "filter (\<lambda>t. sorted (x # t)) (product_lists (replicate r [0..<n])) = sorted_tuples_from n x r"
proof (induction r arbitrary: x)
  case 0 show ?case by simp
next
  case (Suc r)
  have "filter (\<lambda>t. sorted (x # t)) (map (Cons y) (product_lists (replicate r [0..<n])))
      = (if x \<le> y then map (Cons y) (sorted_tuples_from n y r) else [])" for y
  proof -
    have "filter (\<lambda>t. sorted (x # t)) (map (Cons y) (product_lists (replicate r [0..<n])))
        = map (Cons y) (filter (\<lambda>t. x \<le> y \<and> sorted (y # t)) (product_lists (replicate r [0..<n])))"
      by (simp only: filter_map comp_def sorted2)
    also have "\<dots> = (if x \<le> y then map (Cons y) (sorted_tuples_from n y r) else [])"
      by (simp only: Suc [symmetric]) simp
    finally show ?thesis .
  qed
  then show ?case
    by (simp add: filter_concat comp_def concat_map_if_upt del: sorted_wrt.simps)
qed

lemma index_tuples_recursive: "index_tuples n r = sorted_tuples_from n 0 r"
proof -
  have "filter sorted xs = filter (\<lambda>t. sorted (0 # t)) xs" for xs :: "nat list list"
    by (rule filter_cong) auto
  then show ?thesis by (simp only: index_tuples_def filter_sorted_from)
qed


lemma pivot_Cons:
  "pivot n (x # s) (Suc i) =
     (case pivot n s i of Some j \<Rightarrow> Some (Suc j) | None \<Rightarrow> if x \<noteq> n - 1 then Some 0 else None)"
  by (induction i) simp_all

lemma advance_Cons:
  "advance n (Suc (length s)) (x # s) =
     (case advance n (length s) s of
        Some s' \<Rightarrow> Some (x # s')
      | None \<Rightarrow> if x \<noteq> n - 1 then Some (replicate (Suc (length s)) (x + 1)) else None)"
  unfolding advance_def pivot_Cons by (simp split: option.splits)

lemma sorted_tuples_step:
  "lo < n \<Longrightarrow> sorted_tuples_from n lo (Suc r) = map (Cons lo) (sorted_tuples_from n lo r) @ sorted_tuples_from n (Suc lo) (Suc r)"
  by (simp add: upt_conv_Cons)

lemma sorted_tuples_length: "t \<in> set (sorted_tuples_from n lo r) \<Longrightarrow> length t = r"
  by (induction r arbitrary: lo t) auto

lemma sorted_tuples_chain:
  "lo < n \<Longrightarrow>
     sorted_tuples_from n lo r \<noteq> [] \<and> hd (sorted_tuples_from n lo r) = replicate r lo \<and> last (sorted_tuples_from n lo r) = replicate r (n - 1) \<and>
     advance n r (replicate r (n - 1)) = None \<and>
     successively (\<lambda>a b. advance n r a = Some b) (sorted_tuples_from n lo r)"
proof (induction r arbitrary: lo)
  case 0
  show ?case by (simp add: advance_def)
next
  case (Suc r)
  have stop: "advance n (Suc r) (replicate (Suc r) (n - 1)) = None"
    using Suc.IH [OF Suc.prems] advance_Cons [of n "replicate r (n - 1)" "n - 1"] by simp
  have inner: "successively (\<lambda>a b. advance n (Suc r) a = Some b) (map (Cons x) (sorted_tuples_from n x r))"
    if "x < n" for x
  proof -
    have "advance n (Suc r) (x # a) = Some (x # b)" if "a \<in> set (sorted_tuples_from n x r)" "advance n r a = Some b" for a b
      using that advance_Cons [of n a x] sorted_tuples_length [OF that(1)] by simp
    then have "successively (\<lambda>a b. advance n (Suc r) (x # a) = Some (x # b)) (sorted_tuples_from n x r)"
      using Suc.IH [OF \<open>x < n\<close>]
      by (auto intro: successively_mono [where P = "\<lambda>a b. advance n r a = Some b"])
    then show ?thesis by (simp add: successively_map)
  qed
  from Suc.prems show ?case
  proof (induction "n - lo" arbitrary: lo)
    case 0
    then show ?case by simp
  next
    case (Suc d)
    note ih = Suc.hyps(1)
    from Suc.prems have lo: "lo < n" .
    note base = \<open>\<And>lo. lo < n \<Longrightarrow> sorted_tuples_from n lo r \<noteq> [] \<and> hd (sorted_tuples_from n lo r) = replicate r lo \<and>
      last (sorted_tuples_from n lo r) = replicate r (n - 1) \<and> advance n r (replicate r (n - 1)) = None \<and>
      successively (\<lambda>a b. advance n r a = Some b) (sorted_tuples_from n lo r)\<close>
    show ?case
    proof (cases "Suc lo < n")
      case False
      with lo have n1: "lo = n - 1" and none: "sorted_tuples_from n (Suc lo) (Suc r) = []" by simp_all
      from base [OF lo] have this_block:
        "sorted_tuples_from n lo r \<noteq> []" "hd (sorted_tuples_from n lo r) = replicate r lo" "last (sorted_tuples_from n lo r) = replicate r (n - 1)"
        by simp_all
      have eq: "sorted_tuples_from n lo (Suc r) = map (Cons lo) (sorted_tuples_from n lo r)"
        by (simp only: sorted_tuples_step [OF lo] none append_Nil2)
      have "hd (sorted_tuples_from n lo (Suc r)) = replicate (Suc r) lo"
        using this_block by (simp add: eq hd_map del: sorted_tuples_from.simps)
      moreover have "last (sorted_tuples_from n lo (Suc r)) = replicate (Suc r) (n - 1)"
      proof -
        have "last (sorted_tuples_from n lo (Suc r)) = lo # replicate r (n - 1)"
          unfolding eq using this_block(1,3) by (simp add: last_map del: sorted_tuples_from.simps)
        also have "\<dots> = replicate (Suc r) (n - 1)"
          by (simp add: n1)
        finally show ?thesis .
      qed
      moreover have "sorted_tuples_from n lo (Suc r) \<noteq> []"
        using this_block by (simp add: eq del: sorted_tuples_from.simps)
      moreover have "successively (\<lambda>a b. advance n (Suc r) a = Some b) (sorted_tuples_from n lo (Suc r))"
        using inner [OF lo] by (simp only: eq)
      ultimately show ?thesis using stop by blast
    next
      case True
      from Suc.hyps(2) True have "d = n - Suc lo" by simp
      from ih [OF this True] have rest:
        "sorted_tuples_from n (Suc lo) (Suc r) \<noteq> []" "hd (sorted_tuples_from n (Suc lo) (Suc r)) = replicate (Suc r) (Suc lo)"
        "last (sorted_tuples_from n (Suc lo) (Suc r)) = replicate (Suc r) (n - 1)"
        "successively (\<lambda>a b. advance n (Suc r) a = Some b) (sorted_tuples_from n (Suc lo) (Suc r))"
        by simp_all
      from base [OF lo] have this_block:
        "sorted_tuples_from n lo r \<noteq> []" "hd (sorted_tuples_from n lo r) = replicate r lo" "last (sorted_tuples_from n lo r) = replicate r (n - 1)"
        "advance n r (replicate r (n - 1)) = None"
        by simp_all
      have junction: "advance n (Suc r) (lo # replicate r (n - 1)) = Some (replicate (Suc r) (Suc lo))"
        using advance_Cons [of n "replicate r (n - 1)" lo] this_block(4) True by simp
      have eq: "sorted_tuples_from n lo (Suc r) = map (Cons lo) (sorted_tuples_from n lo r) @ sorted_tuples_from n (Suc lo) (Suc r)"
        by (rule sorted_tuples_step [OF lo])
      have "hd (sorted_tuples_from n lo (Suc r)) = replicate (Suc r) lo"
        using this_block by (simp add: eq hd_map hd_append del: sorted_tuples_from.simps)
      moreover have "last (sorted_tuples_from n lo (Suc r)) = replicate (Suc r) (n - 1)"
        using rest by (simp add: eq del: sorted_tuples_from.simps replicate.simps)
      moreover have "sorted_tuples_from n lo (Suc r) \<noteq> []"
        using rest by (simp add: eq del: sorted_tuples_from.simps)
      moreover have "successively (\<lambda>a b. advance n (Suc r) a = Some b) (sorted_tuples_from n lo (Suc r))"
        unfolding eq successively_append_iff
        using inner [OF lo] rest this_block junction
        by (simp add: last_map hd_map del: sorted_tuples_from.simps replicate.simps)
      ultimately show ?thesis using stop by blast
    qed
  qed
qed

lemma generate_chain:
  "successively (\<lambda>a b. advance n r a = Some b) (x # xs) \<Longrightarrow> advance n r (last (x # xs)) = None \<Longrightarrow>
     generate n r x emitted = Some (emitted @ xs)"
proof (induction xs arbitrary: x emitted)
  case Nil
  then show ?case by (subst generate.simps) simp
next
  case (Cons y ys)
  then have "advance n r x = Some y" by simp
  moreover have "generate n r y (emitted @ [y]) = Some ((emitted @ [y]) @ ys)"
    using Cons.prems by (intro Cons.IH) simp_all
  ultimately show ?case by (subst generate.simps) simp
qed

lemma generated_combinations_eq:
  "generated_combinations pool r = Some (combinations_with_replacement pool r)"
proof (cases "length pool = 0")
  case True
  show ?thesis
  proof (cases r)
    case 0
    have "generate 0 0 [] [[]] = Some [[]]"
      by (subst generate.simps) (simp add: advance_def)
    with True 0 show ?thesis
      by (simp add: generated_combinations_def combinations_with_replacement_def index_tuples_recursive)
  next
    case (Suc r')
    with True show ?thesis
      by (simp add: generated_combinations_def combinations_with_replacement_def index_tuples_recursive)
  qed
next
  case False
  then have n: "0 < length pool" by simp
  let ?l = "sorted_tuples_from (length pool) 0 r"
  from sorted_tuples_chain [OF n, of r] have ne: "?l \<noteq> []" and hd: "hd ?l = replicate r 0"
    and chain: "successively (\<lambda>a b. advance (length pool) r a = Some b) ?l"
    and stop: "advance (length pool) r (last ?l) = None"
    by simp_all
  from hd_Cons_tl [OF ne] hd have l: "?l = replicate r 0 # tl ?l" by simp
  have "generate (length pool) r (replicate r 0) [replicate r 0] = Some ([replicate r 0] @ tl ?l)"
    using chain stop l by (intro generate_chain) (simp_all del: sorted_tuples_from.simps)
  with l have "generate (length pool) r (replicate r 0) [replicate r 0] = Some ?l"
    by (simp del: sorted_tuples_from.simps)
  with False show ?thesis
    by (simp add: generated_combinations_def combinations_with_replacement_def index_tuples_recursive
        del: sorted_tuples_from.simps)
qed

lemma in_product_replicate:
  "t \<in> set (product_lists (replicate r xs)) \<longleftrightarrow> length t = r \<and> set t \<subseteq> set xs"
proof (induction r arbitrary: t)
  case 0
  show ?case by auto
next
  case (Suc r)
  show ?case
  proof (cases t)
    case Nil
    then show ?thesis by auto
  next
    case (Cons y ys)
    then show ?thesis using Suc [of ys] by auto
  qed
qed

lemma index_tuples_set:
  "set (index_tuples n r) = {t. length t = r \<and> sorted t \<and> set t \<subseteq> {0..<n}}"
  by (auto simp: index_tuples_def in_product_replicate)

lemma sorted_tuples_head: "t \<in> set (sorted_tuples_from n lo (Suc r)) \<Longrightarrow> \<exists>x s. t = x # s \<and> lo \<le> x"
  by auto

lemma sorted_tuples_lex:
  "sorted_wrt (\<lambda>s t. (s, t) \<in> lexord {(a, b). a < b}) (sorted_tuples_from n lo r)"
proof (induction r arbitrary: lo)
  case 0
  show ?case by simp
next
  case (Suc r)
  show ?case
  proof (induction "n - lo" arbitrary: lo)
    case 0
    then show ?case by simp
  next
    case (Suc d)
    then have lo: "lo < n" and d: "d = n - Suc lo" by simp_all
    have "sorted_wrt (\<lambda>s t. (s, t) \<in> lexord {(a, b). a < b}) (map (Cons lo) (sorted_tuples_from n lo r))"
      using \<open>\<And>lo. sorted_wrt (\<lambda>s t. (s, t) \<in> lexord {(a, b). a < b}) (sorted_tuples_from n lo r)\<close>
      by (simp add: sorted_wrt_map)
    moreover have "(s, t) \<in> lexord {(a, b). a < b}"
      if "s \<in> set (map (Cons lo) (sorted_tuples_from n lo r))" "t \<in> set (sorted_tuples_from n (Suc lo) (Suc r))" for s t
      using that(1) sorted_tuples_head [OF that(2)] by auto
    ultimately show ?case
      using Suc.hyps(1) [OF d]
      by (simp only: sorted_tuples_step [OF lo] sorted_wrt_append) blast
  qed
qed

lemma index_tuples_lex:
  "sorted_wrt (\<lambda>s t. (s, t) \<in> lexord {(a, b). a < b}) (index_tuples n r)"
  by (simp only: index_tuples_recursive sorted_tuples_lex)

subsection \<open>The loops of the model matrix\<close>

lemma column_product_Some:
  fixes data_points :: "'a::times list list"
  assumes "list_all (\<lambda>x. length x = m) data_points"
  shows "length p = m \<Longrightarrow> list_all (\<lambda>j. j < length data_points) js \<Longrightarrow>
     column_product data_points (Some p) js =
       Inr (Some (map (\<lambda>i. foldl (*) (p ! i) (map (\<lambda>j. data_points ! j ! i) js)) [0..<m]))"
proof (induction js arbitrary: p)
  case Nil
  then have "map ((!) p) [0..<m] = p" by (metis map_nth)
  then show ?case by simp
next
  case (Cons j js)
  from Cons.prems have "j < length data_points" by simp
  with assms have len: "length (data_points ! j) = m"
    by (simp add: list_all_length)
  let ?q = "map2 (*) p (data_points ! j)"
  have b: "broadcast1 (*) p (data_points ! j) = Inr ?q"
    using Cons.prems len by (simp add: broadcast1_def)
  have lq: "length ?q = m" using Cons.prems len by simp
  have "column_product data_points (Some p) (j # js) = column_product data_points (Some ?q) js"
    by (simp add: b)
  also have "\<dots> = Inr (Some (map (\<lambda>i. foldl (*) (?q ! i) (map (\<lambda>j. data_points ! j ! i) js)) [0..<m]))"
    using Cons.IH [OF lq] Cons.prems by simp
  also have "map (\<lambda>i. foldl (*) (?q ! i) (map (\<lambda>j. data_points ! j ! i) js)) [0..<m]
           = map (\<lambda>i. foldl (*) (p ! i) (map (\<lambda>j. data_points ! j ! i) (j # js))) [0..<m]"
    using Cons.prems len by auto
  finally show ?case .
qed

lemma map_nth_observation:
  "list_all (\<lambda>j. j < length data_points) js \<Longrightarrow>
     map (nth (observation data_points i)) js = map (\<lambda>j. data_points ! j ! i) js"
  by (induction js) (simp_all add: observation_def)

lemma monomial_observation:
  assumes "list_all (\<lambda>j. j < length data_points) (j # js)"
  shows "monomial (observation data_points i) (j # js)
       = foldl (*) (data_points ! j ! i) (map (\<lambda>j. data_points ! j ! i) js)"
proof -
  from assms have js: "list_all (\<lambda>j. j < length data_points) js" by simp
  have "observation data_points i ! j = data_points ! j ! i"
    using assms by (simp add: observation_def)
  then show ?thesis by (simp add: monomial_def map_nth_observation [OF js])
qed

lemma column_product_None:
  fixes data_points :: "'a::times list list"
  assumes "list_all (\<lambda>x. length x = m) data_points"
    and "list_all (\<lambda>j. j < length data_points) c" and "c \<noteq> []"
  shows "column_product data_points None c
       = Inr (Some (map (\<lambda>i. monomial (observation data_points i) c) [0..<m]))"
proof (cases c)
  case Nil
  with assms show ?thesis by simp
next
  case (Cons j js)
  from assms Cons have "j < length data_points" by simp
  with assms(1) have len: "length (data_points ! j) = m"
    by (simp add: list_all_length)
  show ?thesis
    using column_product_Some [OF assms(1) len, of js] assms(2) Cons
    by (simp add: monomial_observation)
qed

lemma append_columns_eq:
  fixes data_points :: "'a::times list list"
  assumes "list_all (\<lambda>x. length x = m) data_points"
  shows "list_all (\<lambda>c. c \<noteq> [] \<and> list_all (\<lambda>j. j < length data_points) c) cs \<Longrightarrow>
     append_columns data_points columns cs =
       Inr (columns @ map (\<lambda>c. Some (map (\<lambda>i. monomial (observation data_points i) c) [0..<m])) cs)"
proof (induction cs arbitrary: columns)
  case Nil
  show ?case by simp
next
  case (Cons c cs)
  then show ?case using column_product_None [OF assms, of c] by simp
qed

lemma those_map_Some: "those (map Some xs) = Some xs"
  by (induction xs) simp_all

lemma np_array_T_columns:
  assumes "list_all (\<lambda>c. length c = m) cols"
  shows "np_array_T (map Some cols) =
     Inr (if cols = [] then EmptyArray
          else Matrix (length cols) (map (\<lambda>i. map (\<lambda>d. d ! i) cols) [0..<m]))"
proof (cases cols)
  case Nil
  then show ?thesis by (simp add: np_array_T_def)
next
  case (Cons c cs)
  with assms have "length c = m" and "list_all (\<lambda>d. length d = m) cs" by simp_all
  with Cons show ?thesis by (simp add: np_array_T_def those_map_Some)
qed

lemma columns_of_transposed:
  assumes "list_all (\<lambda>c. length c = m) cols"
  shows "columns_of (if cols = [] then EmptyArray
          else Matrix (length cols) (map (\<lambda>i. map (\<lambda>d. d ! i) cols) [0..<m])) = cols"
  using assms
  by (auto simp: columns_of_def column_def list_all_length intro!: nth_equalityI)

lemma built_columns_length:
  "list_all (\<lambda>c. length c = m) (built_columns data_points m n_pol include_intercept)"
  by (auto simp: built_columns_def list_all_iff)

lemma check_features_equal_length:
  assumes "list_all (\<lambda>x. length x = m) data_points" and "length data_points \<noteq> 1"
  shows "check_features data_points [0..<length data_points] = Inr ()"
proof (cases data_points)
  case Nil
  then show ?thesis by simp
next
  case (Cons x xs)
  with assms(2) obtain y ys where "xs = y # ys" by (cases xs) auto
  with Cons assms(1) show ?thesis
    by (simp add: check_features_closed assert_features_def)
qed

lemma get_model_matrix_built:
  fixes data_points :: "'a::{one,times} list list"
  assumes eq: "list_all (\<lambda>x. length x = m) data_points" and two: "length data_points \<noteq> 1"
    and ne: "\<not> (data_points = [] \<and> include_intercept)"
  shows "get_model_matrix data_points (PyInt (int n_pol)) include_intercept
       = np_array_T (map Some (built_columns data_points m n_pol include_intercept))"
proof -
  define ones :: "'a list list" where "ones = (if include_intercept then [replicate m 1] else [])"
  have ic: "intercept_columns data_points include_intercept = Inr (map Some ones)"
    using ne eq by (cases data_points) (auto simp: intercept_columns_def ones_def np_ones_def)
  let ?cs = "index_combinations (length data_points) (int n_pol)"
  have ac: "append_columns data_points (map Some ones) ?cs
      = Inr (map Some (ones @ map (\<lambda>c. map (\<lambda>i. monomial (observation data_points i) c) [0..<m]) ?cs))"
    using append_columns_eq [OF eq index_combinations_ok] by (simp add: comp_def)
  have cols: "ones @ map (\<lambda>c. map (\<lambda>i. monomial (observation data_points i) c) [0..<m]) ?cs
      = built_columns data_points m n_pol include_intercept"
    by (simp add: built_columns_def ones_def index_combinations_eq del: upt_Suc)
  show ?thesis
    by (simp add: get_model_matrix_def check_features_equal_length [OF eq two] ic ac cols
        del: map_append)
qed

lemma monomial_prod_list:
  fixes x :: "'a::monoid_mult list"
  assumes "c \<noteq> []"
  shows "monomial x c = prod_list (map (nth x) c)"
proof -
  have "foldl (*) a bs = a * prod_list bs" for a :: 'a and bs
    by (induction bs arbitrary: a) (simp_all add: mult.assoc)
  with assms show ?thesis by (cases c) (simp_all add: monomial_def)
qed

lemma built_columns_model_columns:
  fixes data_points :: "'a::monoid_mult list list"
  shows "built_columns data_points m n_pol include_intercept
       = model_columns data_points m n_pol include_intercept"
proof -
  have "map (\<lambda>i. monomial (observation data_points i) c) [0..<m] = product_column data_points m c"
    if "c \<in> set (index_tuples (length data_points) d)" "1 \<le> d" for c d
  proof -
    from index_tuples_bound [OF that(1)] that(2)
    have c: "c \<noteq> []" "list_all (\<lambda>j. j < length data_points) c" by auto
    then show ?thesis
      by (simp add: product_column_def monomial_prod_list map_nth_observation)
  qed
  then have "map (\<lambda>c. map (\<lambda>i. monomial (observation data_points i) c) [0..<m])
               (concat (map (index_tuples (length data_points)) [1..<Suc n_pol]))
           = concat (map (\<lambda>d. map (product_column data_points m) (index_tuples (length data_points) d))
               [1..<Suc n_pol])"
    unfolding map_concat by (auto simp del: upt_Suc intro!: arg_cong [where f = concat])
  then show ?thesis by (simp only: built_columns_def model_columns_def)
qed

subsection \<open>Errors of the model matrix\<close>

lemma column_product_error: "column_product data_points p c = Inl e \<Longrightarrow> e = ValueError"
  by (induction data_points p c rule: column_product.induct)
     (auto simp: broadcast1_def split: option.splits sum.splits if_splits)

lemma append_columns_error: "append_columns data_points columns cs = Inl e \<Longrightarrow> e = ValueError"
  by (induction data_points columns cs rule: append_columns.induct)
     (auto split: sum.splits dest: column_product_error)

lemma np_array_T_error: "np_array_T columns = Inl e \<Longrightarrow> e = ValueError"
  by (auto simp: np_array_T_def split: option.splits list.splits if_splits)

lemma intercept_columns_error: "intercept_columns data_points b = Inl e \<Longrightarrow> e = IndexError"
  by (auto simp: intercept_columns_def split: list.splits if_splits)

lemma model_columns_example:
  "model_columns [[1, 2], [3, 4 :: int]] 2 2 False = [[1, 2], [3, 4], [1, 4], [3, 8], [9, 16]]"
  by code_simp

subsection \<open>The claims about the model matrix\<close>

text \<open>
  The example of the specification, for all sequences \<open>x\<close> and \<open>y\<close> of one length and any
  multiplication: degree 2 without the intercept gives the columns \<open>x\<close>, \<open>y\<close>, \<open>x*x\<close>,
  \<open>x*y\<close>, \<open>y*y\<close>.
\<close>

lemma two_features_degree_two:
  fixes x y :: "'a::{one,times} list"
  assumes "length x = length y"
  shows "\<exists>a. get_model_matrix [x, y] (PyInt 2) False = Inr a \<and>
             columns_of a = [x, y, map2 (*) x x, map2 (*) x y, map2 (*) y y]"
proof -
  let ?m = "length x"
  have eq: "list_all (\<lambda>z. length z = ?m) [x, y]" using assms by simp
  have two: "length [x, y] \<noteq> 1" by simp
  have ne: "\<not> ([x, y] = [] \<and> False)" by simp
  have l2: "length [x, y] = 2" by simp
  have combos: "concat (map (index_tuples 2) [1..<Suc 2]) = [[0], [1], [0, 0], [0, 1], [1, 1]]"
    by code_simp
  have ly: "length y = ?m" using assms by simp
  have pw: "map (\<lambda>i. u ! i * v ! i) [0..<?m] = map2 (*) u v"
    if "length u = ?m" "length v = ?m" for u v :: "'a list"
    using that by (auto intro!: nth_equalityI)
  have id: "map ((!) u) [0..<?m] = u" if "length u = ?m" for u :: "'a list"
    using that map_nth [of u] by simp
  have cols: "built_columns [x, y] ?m 2 False = [x, y, map2 (*) x x, map2 (*) x y, map2 (*) y y]"
    unfolding built_columns_def l2 combos
    by (simp add: monomial_def observation_def pw [OF refl refl] pw [OF refl ly] pw [OF ly ly]
        id [OF refl] id [OF ly])
  let ?cols = "built_columns [x, y] ?m 2 False"
  have len: "list_all (\<lambda>c. length c = ?m) ?cols" by (rule built_columns_length)
  have "get_model_matrix [x, y] (PyInt (int 2)) False
      = Inr (if ?cols = [] then EmptyArray
             else Matrix (length ?cols) (map (\<lambda>i. map (\<lambda>d. d ! i) ?cols) [0..<?m]))"
    by (simp only: get_model_matrix_built [OF eq two ne] np_array_T_columns [OF len])
  moreover have "columns_of (if ?cols = [] then EmptyArray
             else Matrix (length ?cols) (map (\<lambda>i. map (\<lambda>d. d ! i) ?cols) [0..<?m])) = ?cols"
    by (rule columns_of_transposed [OF len])
  ultimately have "\<exists>a. get_model_matrix [x, y] (PyInt (int 2)) False = Inr a \<and> columns_of a = ?cols"
    by blast
  then show ?thesis by (simp only: cols) simp
qed


text \<open>
  C1, as amended. For two or more feature sequences of one length \<open>m\<close> and every
  \<open>n_pol \<ge> 0\<close>, \<open>get_model_matrix\<close> returns an array whose columns are, in this order:
  the column of \<open>m\<close> ones if \<open>include_intercept\<close> is set, then for each degree \<open>d\<close> from 1
  to \<open>n_pol\<close> one column per sorted tuple of \<open>d\<close> feature indices, the tuples in
  lexicographic order, each column the elementwise product of the chosen sequences.
  For no sequence at all the same holds without the intercept (there is no column), and
  with the intercept the call raises \<^verbatim>\<open>IndexError\<close>, since the length of the column of
  ones is read from the first sequence.
\<close>

theorem model_matrix_column_order:
  fixes data_points :: "'a::monoid_mult list list"
  assumes "list_all (\<lambda>x. length x = m) data_points" and "length data_points \<noteq> 1"
  shows "if data_points = [] \<and> include_intercept
         then get_model_matrix data_points (PyInt (int n_pol)) include_intercept = Inl IndexError
         else \<exists>a. get_model_matrix data_points (PyInt (int n_pol)) include_intercept = Inr a \<and>
                  columns_of a = model_columns data_points m n_pol include_intercept"
proof (cases "data_points = [] \<and> include_intercept")
  case True
  then show ?thesis
    by (simp add: get_model_matrix_def intercept_columns_def)
next
  case False
  let ?cols = "built_columns data_points m n_pol include_intercept"
  define a where "a = (if ?cols = [] then EmptyArray
             else Matrix (length ?cols) (map (\<lambda>i. map (\<lambda>d. d ! i) ?cols) [0..<m]))"
  have built: "get_model_matrix data_points (PyInt (int n_pol)) include_intercept = Inr a"
    unfolding a_def
    by (simp only: get_model_matrix_built [OF assms False]
        np_array_T_columns [OF built_columns_length])
  have "columns_of a = ?cols"
    unfolding a_def by (rule columns_of_transposed [OF built_columns_length])
  then have "columns_of a = model_columns data_points m n_pol include_intercept"
    by (simp only: built_columns_model_columns)
  with built show ?thesis
    unfolding if_not_P [OF False] by blast
qed

text \<open>
  The instance the claim names: for the two features \<open>x = [1, 2]\<close> and \<open>y = [3, 4]\<close>,
  \<open>n_pol = 2\<close> and no intercept the columns are \<open>x\<close>, \<open>y\<close>, \<open>x*x\<close>, \<open>x*y\<close>, \<open>y*y\<close>.
\<close>

theorem model_matrix_column_order_witness:
  "\<exists>a. get_model_matrix [[1, 2], [3, 4 :: int]] (PyInt 2) False = Inr a \<and>
       columns_of a = [[1, 2], [3, 4], [1, 4], [3, 8], [9, 16]]"
  using model_matrix_column_order [of 2 "[[1, 2], [3, 4 :: int]]" False 2]
  by (simp add: model_columns_example)

text \<open>
  The claim as worded fails for the empty collection with the intercept: no matrix is
  built.
\<close>

theorem model_matrix_column_order_counterexample:
  "get_model_matrix ([] :: int list list) (PyInt 0) True = Inl IndexError"
  by (simp add: get_model_matrix_def intercept_columns_def)

text \<open>
  C3, at the failing input. The third sequence is shorter than the other two; the check
  compares the first two only, and with \<open>n_pol = 0\<close> the call returns the matrix that
  holds the column of ones.
\<close>

theorem unequal_lengths_accepted:
  "get_model_matrix [[1, 2], [3, 4], [5 :: int]] (PyInt 0) True = Inr (Matrix 1 [[1], [1]])"
  by code_simp

text \<open>
  C4, at the failing inputs. With a single feature sequence the check of lines 44-45 reads
  \<^verbatim>\<open>data_points[1]\<close>; the call raises \<^verbatim>\<open>IndexError\<close> whatever the sequence, the
  degree and the flag are.
\<close>

theorem single_feature_fails:
  "get_model_matrix [x] n_pol include_intercept = Inl IndexError"
  by (simp add: get_model_matrix_def assert_features_def)

text \<open>
  C5, as amended. Where the check of the feature lengths passes, \<open>get_model_matrix\<close>
  fails at the assertion on \<^verbatim>\<open>n_pol\<close> exactly when \<^verbatim>\<open>n_pol\<close> is not of type
  \<^verbatim>\<open>int\<close>; a negative integer is accepted and gives what \<open>n_pol = 0\<close> gives.
\<close>

theorem n_pol_assertion:
  assumes "data_points = [] \<or>
           (2 \<le> length data_points \<and> length (data_points ! 0) = length (data_points ! 1))"
  shows "((get_model_matrix data_points n_pol include_intercept = Inl (AssertionError polynom_type))
            = (\<forall>n. n_pol \<noteq> PyInt n)) \<and>
         (\<forall>n<0. get_model_matrix data_points (PyInt n) include_intercept
                = get_model_matrix data_points (PyInt 0) include_intercept)"
proof
  have chk: "check_features data_points [0..<length data_points] = Inr ()"
    using assms by (auto simp: check_features_closed assert_features_def)
  show "(get_model_matrix data_points n_pol include_intercept = Inl (AssertionError polynom_type))
            = (\<forall>n. n_pol \<noteq> PyInt n)"
  proof (cases n_pol)
    case (PyInt n)
    have "get_model_matrix data_points (PyInt n) include_intercept \<noteq> Inl (AssertionError polynom_type)"
      by (auto simp: get_model_matrix_def chk split: sum.splits
          dest: intercept_columns_error append_columns_error np_array_T_error)
    with PyInt show ?thesis by simp
  qed (simp_all add: get_model_matrix_def chk)
  show "\<forall>n<0. get_model_matrix data_points (PyInt n) include_intercept
                = get_model_matrix data_points (PyInt 0) include_intercept"
    by (auto simp: get_model_matrix_def index_combinations_negative split: sum.splits)
qed

theorem n_pol_assertion_witness:
  "get_model_matrix [[1, 2], [3, 4 :: int]] (PyFloat 2) True = Inl (AssertionError polynom_type) \<and>
   get_model_matrix [[1, 2], [3, 4 :: int]] (PyInt (- 1)) True
     = get_model_matrix [[1, 2], [3, 4 :: int]] (PyInt 0) True"
  using n_pol_assertion [of "[[1, 2], [3, 4 :: int]]" "PyFloat 2" True]
  by simp

theorem n_pol_assertion_counterexample:
  "get_model_matrix [[1, 2], [3, 4 :: int]] (PyInt (- 1)) True = Inr (Matrix 1 [[1], [1]])"
  by code_simp

subsection \<open>The loop of the scaler\<close>

lemma center_loop:
  assumes "a < length s" and "s ! a = Matrix k rows"
  shows "n \<le> length rows \<Longrightarrow>
     foldl (\<lambda>t i. assign_row t a i (f (read_row t a i))) s [0..<n]
       = s[a := Matrix k (map f (take n rows) @ drop n rows)]"
proof (induction n)
  case 0
  with assms show ?case by (simp add: list_update_id [of s a, unfolded assms(2)])
next
  case (Suc n)
  then have n: "n < length rows" by simp
  let ?t = "s[a := Matrix k (map f (take n rows) @ drop n rows)]"
  have t: "?t ! a = Matrix k (map f (take n rows) @ drop n rows)"
    using assms(1) by simp
  have rd: "read_row ?t a n = rows ! n"
    using n by (simp add: read_row_def t nth_append)
  have upd: "(map f (take n rows) @ drop n rows)[n := f (rows ! n)]
           = map f (take (Suc n) rows) @ drop (Suc n) rows"
    using n by (simp add: list_update_append take_Suc_conv_app_nth Cons_nth_drop_Suc [symmetric])
  have "foldl (\<lambda>t i. assign_row t a i (f (read_row t a i))) s [0..<Suc n]
      = assign_row ?t a n (f (read_row ?t a n))"
    using Suc by simp
  also have "\<dots> = s[a := Matrix k (map f (take (Suc n) rows) @ drop (Suc n) rows)]"
    by (simp add: assign_row_def t rd upd)
  finally show ?case .
qed

lemma reduce_axis0_rows:
  "rows \<noteq> [] \<or> k = 0 \<Longrightarrow>
     reduce_axis0 f k rows = Inr (map (\<lambda>j. foldl f (hd rows ! j) (column (tl rows) j)) [0..<k])"
  by (cases rows) (auto simp: reduce_axis0_def)

lemma center_closed:
  assumes "a < length s" and "s ! a = Matrix k rows" and "rows \<noteq> [] \<or> k = 0"
  shows "center s a =
     Inr ((a, np_mean_axis0 k rows,
           map2 (-) (map (\<lambda>j. foldl max (hd rows ! j) (column (tl rows) j)) [0..<k])
                    (map (\<lambda>j. foldl min (hd rows ! j) (column (tl rows) j)) [0..<k])),
          s[a := Matrix k (map (center_row (np_mean_axis0 k rows)
             (map2 (-) (map (\<lambda>j. foldl max (hd rows ! j) (column (tl rows) j)) [0..<k])
                    (map (\<lambda>j. foldl min (hd rows ! j) (column (tl rows) j)) [0..<k]))) rows)])"
  using assms(3)
  by (simp add: center_def assms(2) np_max_axis0_def np_min_axis0_def reduce_axis0_rows
      center_loop [OF assms(1,2)] Let_def)



subsection \<open>Folds as sums, maxima and minima\<close>

lemma foldl_plus: "foldl (+) a xs = (a :: 'a::monoid_add) + sum_list xs"
  by (induction xs arbitrary: a) (simp_all add: add.assoc)

lemma np_sum_sum_list: "np_sum xs = sum_list (xs :: 'a::monoid_add list)"
  by (simp add: np_sum_def foldl_plus)












subsection \<open>The claims about the scaler\<close>






subsection \<open>The claims about the kinds of regressor\<close>

lemma regressor_needs_beta:
  assumes "\<And>model_matrix. get_beta ext type model_matrix (targets train_data) ps g = Inl e"
  shows "regressor ext type ps train_data test_data n_pol g \<noteq> Inr p"
  using assms
  by (auto simp: regressor_def regressor_centered_def regressor_plain_def
      split: sum.splits prod.splits if_splits)


text \<open>
  C9. For every tag that is none of the six kinds \<open>get_beta\<close> raises
  \<^verbatim>\<open>NotImplementedError\<close>, whatever the matrix, the targets and the parameters are, and
  \<open>regressor\<close> returns no prediction: no branch falls back on another kind.
\<close>

theorem unknown_kind_not_implemented:
  assumes "type \<notin> {OLS, OLS_SGD, LASSO, RIDGE, RIDGE_SGD, LOGISTIC}"
  shows "get_beta ext type model_matrix ys ps g = Inl NotImplementedError \<and>
         (\<forall>p. regressor ext type ps train_data test_data n_pol g \<noteq> Inr p)"
proof
  have nb: "get_beta ext type a y ps g = Inl NotImplementedError" for a y
    using assms by (simp add: get_beta_def)
  then show "get_beta ext type model_matrix ys ps g = Inl NotImplementedError" .
  show "\<forall>p. regressor ext type ps train_data test_data n_pol g \<noteq> Inr p"
    using regressor_needs_beta [of ext type train_data ps g NotImplementedError] nb by blast
qed

theorem unknown_kind_not_implemented_witness:
  "get_beta example_externals (Unrecognized ''SVR'') (Matrix 1 [[1], [2]]) [1, 2] example_parameters 0
     = Inl NotImplementedError \<and>
   (\<forall>p. regressor example_externals (Unrecognized ''SVR'') example_parameters example_train
          example_test (PyInt 2) 0 \<noteq> Inr p)"
  using unknown_kind_not_implemented [of "Unrecognized ''SVR''" example_externals]
  by simp


text \<open>
  C6, on the code. The kinds \<^verbatim>\<open>LOGISTIC\<close> and \<^verbatim>\<open>OLS_SGD\<close> hand the engine the same
  cost derivative, \<^verbatim>\<open>calculate_cost_derivative_mse\<close>; they differ in the argument
  \<^verbatim>\<open>alpha\<close> only. \<^verbatim>\<open>calculate_cost_derivative_logistic\<close> is imported and never passed.
\<close>

theorem logistic_uses_mse:
  "get_beta ext LOGISTIC model_matrix ys ps g
     = run_gradient_descent ext model_matrix ys calculate_cost_derivative_mse ps
         (lookup ''alpha'' (alpha ps)) g \<and>
   get_beta ext OLS_SGD model_matrix ys ps g
     = run_gradient_descent ext model_matrix ys calculate_cost_derivative_mse ps (Inr 0) g"
  by (simp add: get_beta_def)

lemma logistic_example:
  "get_beta example_externals LOGISTIC (Matrix 2 [[1, 2], [3, 4]]) [1, 2] example_parameters 0
     = Inr ([1, 1], 2)"
  by code_simp

subsection \<open>The normal equations\<close>

lemma dot_sum_list: "dot xs ys = (\<Sum>(a, b)\<leftarrow>zip xs (ys :: 'a::semiring_0 list). a * b)"
  by (simp add: dot_def np_sum_sum_list)

lemma sum_list_zip_nth:
  fixes f :: "'b \<Rightarrow> 'c \<Rightarrow> 'a::comm_monoid_add"
  assumes "length xs = n" "length ys = n"
  shows "(\<Sum>(a, b)\<leftarrow>zip xs ys. f a b) = (\<Sum>i<n. f (xs ! i) (ys ! i))"
proof -
  have "(\<Sum>(a, b)\<leftarrow>zip xs ys. f a b) = (\<Sum>i = 0..<length (zip xs ys). case zip xs ys ! i of (a, b) \<Rightarrow> f a b)"
    by (simp add: sum_list_sum_nth)
  also have "\<dots> = (\<Sum>i<n. f (xs ! i) (ys ! i))"
    using assms by (auto simp: atLeast0LessThan intro!: sum.cong)
  finally show ?thesis .
qed

lemma gram_code:
  fixes rows :: "'a::semiring_0 list list"
  shows "matmul_rows k (transpose_rows k rows) rows = gram_matrix k rows"
proof -
  have "dot (map f rows) (map h rows) = (\<Sum>r\<leftarrow>rows. f r * h r)" for f h :: "'a list \<Rightarrow> 'a"
    by (simp add: dot_def np_sum_sum_list map2_map_map)
  then show ?thesis
    by (simp add: matmul_rows_def transpose_rows_def gram_matrix_def column_def)
qed

lemma column_transposed:
  assumes "list_all (\<lambda>r. length r = k) rows" "c < length rows"
  shows "column (transpose_rows k rows) c = rows ! c"
  using assms by (auto simp: column_def transpose_rows_def list_all_length intro!: nth_equalityI)

lemma solve_reassociated:
  fixes rows :: "'a::comm_semiring_0 list list"
  assumes wf: "list_all (\<lambda>r. length r = k) rows" and ly: "length ys = length rows"
    and lp: "length p = k"
  shows "dot (map (\<lambda>c. dot p (column (transpose_rows k rows) c)) [0..<length rows]) ys
       = (\<Sum>(a, b)\<leftarrow>zip p (moment_vector k rows ys). a * b)"
proof -
  let ?n = "length rows"
  have row: "length (rows ! c) = k" if "c < ?n" for c
    using wf that by (simp add: list_all_length)
  have "dot (map (\<lambda>c. dot p (column (transpose_rows k rows) c)) [0..<?n]) ys
      = (\<Sum>c<?n. dot p (rows ! c) * ys ! c)"
    unfolding dot_sum_list [of "map _ _"]
    using ly by (subst sum_list_zip_nth [where n = ?n]) (auto simp: column_transposed [OF wf])
  also have "\<dots> = (\<Sum>c<?n. (\<Sum>j<k. p ! j * rows ! c ! j) * ys ! c)"
    using lp row by (auto simp: dot_sum_list sum_list_zip_nth [where n = k] intro!: sum.cong)
  also have "\<dots> = (\<Sum>j<k. p ! j * (\<Sum>c<?n. rows ! c ! j * ys ! c))"
    unfolding sum_distrib_left sum_distrib_right
    by (subst sum.swap) (simp add: mult.assoc)
  also have "\<dots> = (\<Sum>j<k. p ! j * moment_vector k rows ys ! j)"
    using ly by (auto simp: moment_vector_def sum_list_zip_nth [where n = ?n] intro!: sum.cong)
  also have "\<dots> = (\<Sum>(a, b)\<leftarrow>zip p (moment_vector k rows ys). a * b)"
    using lp by (subst sum_list_zip_nth [where n = k]) (simp_all add: moment_vector_def)
  finally show ?thesis .
qed

lemma solve_with_formula:
  fixes rows :: "'a::comm_semiring_0 list list"
  assumes wf: "list_all (\<lambda>r. length r = k) rows" and ly: "length ys = length rows"
    and pv: "pinv ext k g = Inr (k, p)" and wp: "list_all (\<lambda>r. length r = k) p"
  shows "solve_with ext k g (length rows) (transpose_rows k rows) ys
       = Inr (apply_matrix p (moment_vector k rows ys))"
proof -
  have "map (\<lambda>r. dot r ys) (matmul_rows (length rows) p (transpose_rows k rows))
      = apply_matrix p (moment_vector k rows ys)"
    unfolding matmul_rows_def apply_matrix_def map_map comp_def
    using wp by (auto simp: list_all_iff solve_reassociated [OF wf ly])
  then show ?thesis
    using ly by (simp add: solve_with_def pv transpose_rows_def)
qed

lemma ridge_code:
  fixes g :: "'a::semiring_1 list list"
  assumes "length g = k" "list_all (\<lambda>r. length r = k) g"
  shows "map2 (map2 (+)) g (map (map (\<lambda>x. al * x)) (np_eye k)) = add_ridge al k g"
  using assms
  by (auto simp: np_eye_def add_ridge_def list_all_length intro!: nth_equalityI)

text \<open>
  C7. For a matrix \<open>X\<close> with \<open>k\<close> columns and as many targets as rows, and a pseudo-inverse
  that returns a \<open>k\<close> by \<open>k\<close> matrix \<open>p\<close> for \<open>X\<^sup>t X\<close>, \<open>calculate_beta\<close> returns
  \<open>p (X\<^sup>t y)\<close>; for a pseudo-inverse \<open>p\<close> of \<open>X\<^sup>t X + alpha I\<close>, with \<open>I\<close> the identity of
  \<open>k\<close> rows, \<open>calculate_beta_ridge\<close> returns \<open>p (X\<^sup>t y)\<close>. The code multiplies from the
  left, \<open>(p X\<^sup>t) y\<close>; over exact numbers the two agree. Both are closed expressions in the
  pseudo-inverse: they read nothing but their arguments and have no loop.
\<close>

theorem normal_equations:
  fixes rows :: "'a::comm_semiring_1 list list"
  assumes wf: "list_all (\<lambda>r. length r = k) rows" and ly: "length ys = length rows"
  shows "(\<forall>p. pinv ext k (gram_matrix k rows) = Inr (k, p) \<and> list_all (\<lambda>r. length r = k) p \<longrightarrow>
            calculate_beta ext (Matrix k rows) ys = Inr (apply_matrix p (moment_vector k rows ys))) \<and>
         (\<forall>p. pinv ext k (add_ridge al k (gram_matrix k rows)) = Inr (k, p) \<and>
              list_all (\<lambda>r. length r = k) p \<longrightarrow>
            calculate_beta_ridge ext (Matrix k rows) ys al
              = Inr (apply_matrix p (moment_vector k rows ys)))"
proof (intro conjI allI impI)
  fix p
  assume "pinv ext k (gram_matrix k rows) = Inr (k, p) \<and> list_all (\<lambda>r. length r = k) p"
  then show "calculate_beta ext (Matrix k rows) ys = Inr (apply_matrix p (moment_vector k rows ys))"
    by (simp add: calculate_beta_def gram_code solve_with_formula [OF wf ly])
next
  fix p
  assume p: "pinv ext k (add_ridge al k (gram_matrix k rows)) = Inr (k, p) \<and>
             list_all (\<lambda>r. length r = k) p"
  have "map2 (map2 (+)) (gram_matrix k rows) (map (map (\<lambda>x. al * x)) (np_eye k))
      = add_ridge al k (gram_matrix k rows)"
    by (rule ridge_code) (simp_all add: gram_matrix_def list_all_iff)
  with p show "calculate_beta_ridge ext (Matrix k rows) ys al
      = Inr (apply_matrix p (moment_vector k rows ys))"
    by (simp add: calculate_beta_ridge_def gram_code solve_with_formula [OF wf ly])
qed

theorem normal_equations_witness:
  "calculate_beta example_externals (Matrix 1 [[1], [2]]) [1, 2] = Inr [1] \<and>
   calculate_beta_ridge example_externals (Matrix 1 [[1], [2]]) [1, 2] 5 = Inr [1 / 2]"
  using normal_equations [of 1 "[[1], [2 :: rat]]" "[1, 2]" example_externals 5]
  by (simp add: gram_matrix_def add_ridge_def moment_vector_def apply_matrix_def
      example_externals_def)

subsection \<open>The shape of the model matrix\<close>








subsection \<open>A run of the branch that fits the intercept\<close>

lemma center_result:
  assumes "a < length s" and "s ! a = Matrix k rows"
    and c: "center s a = Inr ((r, m_mean, divisor), s')"
  shows "r = a \<and> s' = s[a := Matrix k (map (center_row m_mean divisor) rows)] \<and>
         length m_mean = k \<and> length divisor = k"
proof -
  from c have "rows \<noteq> [] \<or> k = 0"
    by (auto simp: center_def assms(2) np_max_axis0_def reduce_axis0_def split: list.splits if_splits)
  from center_closed [OF assms(1,2) this] c show ?thesis
    by (auto simp: np_mean_axis0_def)
qed

text \<open>
  In \<open>regressor_centered\<close> the address \<open>center\<close> returns is the address of the train
  matrix, and the one array of the store is the centered one.
\<close>

lemma regressor_centers_in_place:
  assumes "new_array [] created = (train_model_matrix, s0)"
    and "center s0 train_model_matrix = Inr ((centered_train_model_matrix, train_mean, divisor_scaler), s1)"
  shows "centered_train_model_matrix = train_model_matrix \<and>
         (\<exists>k rows. created = Matrix k rows \<and>
            s1 = [Matrix k (map (center_row train_mean divisor_scaler) rows)])"
proof -
  from assms(1) have a: "train_model_matrix = 0" and s0: "s0 = [created]"
    by (simp_all add: new_array_def)
  from assms(2) obtain k rows where cr: "created = Matrix k rows"
    unfolding a s0 by (cases created) (auto simp: center_def)
  from center_result [of 0 "[created]" k rows] assms(2) a s0 cr show ?thesis
    by simp
qed












end
